theory Spec2Isabelle
  imports Main
begin

section \<open>Data model\<close>

text \<open>
  The rows of the relational store behind the Prisma client, as the controllers read and
  write them. Keys are natural numbers, instants are milliseconds since the epoch, and a
  table is the list of its rows in insertion order. A nullable column is an \<open>option\<close>;
  the two contact columns of a voter are strings, the empty string standing for every
  falsy value (\<open>null\<close>, \<open>undefined\<close>, \<open>''\<close>) that \<open>!voter.email\<close> accepts.
\<close>

type_synonym ident = nat
type_synonym instant = int

datatype ballotStatus = ACTIVE | CONSUMED

record eligibleVoter =
  voter_id :: ident
  regNo :: string
  voter_status :: string
  email :: string
  phone :: string

record verification =
  ver_id :: ident
  ver_voterId :: ident
  ver_method :: string
  otpHash :: string
  ver_issuedAt :: instant
  expiresAt :: instant
  verifiedAt :: "instant option"
  ver_consumedAt :: "instant option"
  ver_ballotToken :: "string option"

record ballot =
  ballot_id :: ident
  ballot_voterId :: ident
  token :: string
  status :: ballotStatus
  issuedAt :: instant
  consumedAt :: "instant option"

record vote =
  vote_ballotId :: ident
  vote_positionId :: ident
  vote_candidateId :: ident

record position =
  position_id :: ident
  name :: string
  votingOpens :: instant
  votingCloses :: instant

record candidate =
  candidate_id :: ident
  cand_positionId :: ident
  cand_status :: string

text \<open>An audit entry: action, entity and entity id of the \<open>logAudit\<close> call (the payload is
  not read by any controller and is left out).\<close>

datatype auditEvent = AuditEvent string string ident

record store =
  voters :: "eligibleVoter list"
  verifications :: "verification list"
  ballots :: "ballot list"
  votes :: "vote list"
  positions :: "position list"
  candidates :: "candidate list"
  auditLog :: "auditEvent list"

section \<open>The environment of one request\<close>

text \<open>
  Everything a handler obtains from outside its arguments and the store: the clock, the
  random sources, the bcrypt library, the outcome of each delivery, and for every awaited
  Prisma call whether it throws. One value of \<open>dbCall\<close> per call site.
  \<open>String.prototype.toUpperCase\<close> is a built-in of the JavaScript runtime (the full
  Unicode case mapping, which may even change the length of a string); it is taken from
  the environment as it is and nothing is assumed about it.
\<close>

datatype dbCall =
    EligibleVoterFindUnique
  | BallotFindFirst
  | VerificationFindFirst
  | VerificationCreate
  | VerificationUpdateVerifiedAt
  | BallotCreate
  | VerificationUpdateBallotToken
  | BallotFindUnique
  | PositionFindManyOpen
  | PositionFindManyAll
  | CandidateFindMany
  | VoteFindMany
  | VoteTransaction
  | BallotUpdate

record env =
  clock :: instant
  tzOffset :: int
  toUpperCase :: "string \<Rightarrow> string"
  fails :: "dbCall \<Rightarrow> bool"
  auditRejects :: bool
  emailDelivers :: bool
  smsDelivers :: bool
  randomOtp :: string
  randomToken :: string
  bcryptHash :: "string \<Rightarrow> string"
  bcryptCompare :: "string \<Rightarrow> string \<Rightarrow> bool"

text \<open>The store hands out a key that no row of the table has.\<close>

definition freshId :: "ident list \<Rightarrow> ident" where
  "freshId ks = Suc (fold max ks 0)"

text \<open>Modelled from the spec: \<open>logAudit\<close> of \<open>utils/auditLogger\<close> is not among the sources.
  The audit sink is an append-only recorder; the returned promise either resolves after
  appending the event or rejects without appending.\<close>

definition logAudit :: "env \<Rightarrow> auditEvent \<Rightarrow> store \<Rightarrow> bool \<times> store" where
  "logAudit e ev s =
     (if auditRejects e then (False, s) else (True, s\<lparr>auditLog := auditLog s @ [ev]\<rparr>))"

section \<open>Casting a vote\<close>

record voteEntry =
  positionId :: ident
  candidateId :: ident

datatype castResponse =
    TokenRequired
  | VotesRequired
  | InvalidToken
  | BallotUsed
  | PositionsNotOpen "string list"
  | CandidatesInvalid
  | SamePositionTwice
  | AlreadyVotedPositions
  | VoteCast nat
  | CastFailed

fun castStatus :: "castResponse \<Rightarrow> nat" where
  "castStatus TokenRequired = 400"
| "castStatus VotesRequired = 400"
| "castStatus InvalidToken = 404"
| "castStatus BallotUsed = 400"
| "castStatus (PositionsNotOpen ns) = 400"
| "castStatus CandidatesInvalid = 400"
| "castStatus SamePositionTwice = 400"
| "castStatus AlreadyVotedPositions = 400"
| "castStatus (VoteCast n) = 200"
| "castStatus CastFailed = 500"

fun castError :: "castResponse \<Rightarrow> string" where
  "castError TokenRequired = ''Ballot token is required''"
| "castError VotesRequired = ''Votes are required''"
| "castError InvalidToken = ''Invalid ballot token''"
| "castError BallotUsed = ''This ballot has already been used''"
| "castError (PositionsNotOpen ns) = ''Some positions are not open for voting''"
| "castError CandidatesInvalid = ''Some candidates are invalid or not approved''"
| "castError SamePositionTwice = ''Cannot vote multiple times for the same position''"
| "castError AlreadyVotedPositions = ''You have already voted for some of these positions''"
| "castError (VoteCast n) = []"
| "castError CastFailed = ''Failed to cast vote''"

text \<open>\<open>prisma.ballot.findUnique({ where: { token } })\<close>.\<close>

definition findBallotByToken :: "ballot list \<Rightarrow> string \<Rightarrow> ballot option" where
  "findBallotByToken bs tok = find (\<lambda>b. token b = tok) bs"

text \<open>The voting-window query of \<open>castVote\<close>: the rows whose id is among the submitted
  position ids and for which \<open>votingOpens <= now\<close> and \<open>votingCloses >= now\<close>.\<close>

definition openPositionsFor :: "instant \<Rightarrow> ident list \<Rightarrow> position list \<Rightarrow> position list" where
  "openPositionsFor now ids ps =
     filter (\<lambda>p. position_id p \<in> set ids \<and> votingOpens p \<le> now \<and> votingCloses p \<ge> now) ps"

text \<open>The rows named in the rejection: all targeted positions, filtered by
  \<open>now < p.votingOpens || now > p.votingCloses\<close> at a second reading of the clock.\<close>

definition closedPositionsFor :: "instant \<Rightarrow> ident list \<Rightarrow> position list \<Rightarrow> position list" where
  "closedPositionsFor t ids ps =
     filter (\<lambda>p. t < votingOpens p \<or> t > votingCloses p)
       (filter (\<lambda>p. position_id p \<in> set ids) ps)"

definition approvedCandidatesFor :: "ident list \<Rightarrow> candidate list \<Rightarrow> candidate list" where
  "approvedCandidatesFor ids cs =
     filter (\<lambda>c. candidate_id c \<in> set ids \<and> cand_status c = ''APPROVED'') cs"

definition existingVotesFor :: "ident \<Rightarrow> ident list \<Rightarrow> vote list \<Rightarrow> vote list" where
  "existingVotesFor bid ids vs =
     filter (\<lambda>v. vote_ballotId v = bid \<and> vote_positionId v \<in> set ids) vs"

definition voteRow :: "ident \<Rightarrow> voteEntry \<Rightarrow> vote" where
  "voteRow bid v =
     \<lparr>vote_ballotId = bid, vote_positionId = positionId v, vote_candidateId = candidateId v\<rparr>"

definition consumeBallot :: "ident \<Rightarrow> instant \<Rightarrow> ballot list \<Rightarrow> ballot list" where
  "consumeBallot bid t bs =
     map (\<lambda>b. if ballot_id b = bid then b\<lparr>status := CONSUMED, consumedAt := Some t\<rparr> else b) bs"

text \<open>
  The write phase of \<open>castVote\<close> (from \<open>prisma.$transaction\<close> to the response). The
  transaction holds the \<open>vote.create\<close> calls only: when it throws, none of its rows is
  kept. \<open>ballot.update\<close> is a separate awaited call after it. A throw of either call is
  caught by the handler's \<open>catch\<close>, which answers 500. \<open>logAudit\<close> is called without
  \<open>await\<close> and with a \<open>.catch\<close>, so its outcome reaches neither the response nor the
  control flow.
\<close>

definition castVote_commit :: "env \<Rightarrow> store \<Rightarrow> ballot \<Rightarrow> voteEntry list \<Rightarrow> castResponse \<times> store" where
  "castVote_commit e s b vs =
     (if fails e VoteTransaction then (CastFailed, s)
      else
        let voteRecords = map (voteRow (ballot_id b)) vs;
            s1 = s\<lparr>votes := votes s @ voteRecords\<rparr>
        in if fails e BallotUpdate then (CastFailed, s1)
           else
             let s2 = s1\<lparr>ballots := consumeBallot (ballot_id b) (clock e) (ballots s1)\<rparr>;
                 s3 = snd (logAudit e (AuditEvent ''CAST_VOTE'' ''ballot'' (ballot_id b)) s2)
             in (VoteCast (length voteRecords), s3))"

text \<open>
  \<open>castVote\<close>, with the instant \<open>now\<close> of the voting-window query as a parameter. The
  token is a string, the empty string standing for every falsy value; \<open>votes\<close> is the
  array of the request body, the empty list also standing for a missing or non-array
  value (all answered alike).
\<close>

definition castVoteAt :: "instant \<Rightarrow> env \<Rightarrow> store \<Rightarrow> string \<Rightarrow> voteEntry list \<Rightarrow> castResponse \<times> store" where
  "castVoteAt now e s tok vs =
     (if tok = [] then (TokenRequired, s)
      else if vs = [] then (VotesRequired, s)
      else if fails e BallotFindUnique then (CastFailed, s)
      else case findBallotByToken (ballots s) tok of
        None \<Rightarrow> (InvalidToken, s)
      | Some b \<Rightarrow>
          if status b = CONSUMED then (BallotUsed, s)
          else if fails e PositionFindManyOpen then (CastFailed, s)
          else if length (openPositionsFor now (map positionId vs) (positions s)) \<noteq> length vs
          then (if fails e PositionFindManyAll then (CastFailed, s)
                else (PositionsNotOpen
                        (map name (closedPositionsFor (clock e) (map positionId vs) (positions s))), s))
          else if fails e CandidateFindMany then (CastFailed, s)
          else if length (approvedCandidatesFor (map candidateId vs) (candidates s)) \<noteq> length vs
          then (CandidatesInvalid, s)
          else if length (remdups (map positionId vs)) \<noteq> length (map positionId vs)
          then (SamePositionTwice, s)
          else if fails e VoteFindMany then (CastFailed, s)
          else if length (existingVotesFor (ballot_id b) (map positionId vs) (votes s)) > 0
          then (AlreadyVotedPositions, s)
          else castVote_commit e s b vs)"

text \<open>The handler of the first votes controller: \<open>const now = new Date()\<close>.\<close>

definition castVote :: "env \<Rightarrow> store \<Rightarrow> string \<Rightarrow> voteEntry list \<Rightarrow> castResponse \<times> store" where
  "castVote e s tok vs = castVoteAt (clock e) e s tok vs"

text \<open>
  The handler of the second votes controller computes
  \<open>now = parseDate(new Date().toISOString().slice(0, 16))\<close>: the UTC reading cut to the
  minute, printed without a zone and read back by \<open>new Date\<close> as local time, which moves
  it by the offset of the server's zone (local minus UTC, in milliseconds). This is the
  value for a clock reading whose UTC year has four digits, where \<open>toISOString\<close>
  prints the minute in its first sixteen characters.
\<close>

definition localMinuteNow :: "int \<Rightarrow> instant \<Rightarrow> instant" where
  "localMinuteNow tz t = (t - t mod 60000) - tz"

definition castVote_localTime :: "env \<Rightarrow> store \<Rightarrow> string \<Rightarrow> voteEntry list \<Rightarrow> castResponse \<times> store" where
  "castVote_localTime e s tok vs = castVoteAt (localMinuteNow (tzOffset e) (clock e)) e s tok vs"

section \<open>Verification: requesting and confirming a one-time code\<close>

text \<open>\<open>prisma.eligibleVoter.findUnique({ where: { regNo } })\<close>.\<close>

definition findVoter :: "eligibleVoter list \<Rightarrow> string \<Rightarrow> eligibleVoter option" where
  "findVoter vs r = find (\<lambda>v. regNo v = r) vs"

text \<open>\<open>prisma.ballot.findFirst({ where: { voterId, status: 'CONSUMED' } })\<close>.\<close>

definition consumedBallotOf :: "ident \<Rightarrow> ballot list \<Rightarrow> ballot option" where
  "consumedBallotOf vid bs = find (\<lambda>b. ballot_voterId b = vid \<and> status b = CONSUMED) bs"

text \<open>\<open>orderBy: { issuedAt: 'desc' }\<close> followed by \<open>findFirst\<close>: a row with the greatest
  \<open>issuedAt\<close>, the earliest inserted one among equals.\<close>

fun latestIssued :: "verification list \<Rightarrow> verification option" where
  "latestIssued [] = None"
| "latestIssued (x # xs) =
     (case latestIssued xs of
        None \<Rightarrow> Some x
      | Some y \<Rightarrow> if ver_issuedAt y > ver_issuedAt x then Some y else Some x)"

text \<open>The rate-limit query of \<open>requestOTP\<close>: issued within the last two minutes and not
  yet verified.\<close>

definition recentVerification :: "instant \<Rightarrow> ident \<Rightarrow> verification list \<Rightarrow> verification option" where
  "recentVerification t vid vs =
     latestIssued (filter (\<lambda>v. ver_voterId v = vid \<and> ver_issuedAt v \<ge> t - 2 * 60 * 1000
                              \<and> verifiedAt v = None) vs)"

text \<open>The query of \<open>confirmOTP\<close>: not verified, not consumed, and \<open>expiresAt >= now\<close>.\<close>

definition findValidVerification :: "instant \<Rightarrow> ident \<Rightarrow> verification list \<Rightarrow> verification option" where
  "findValidVerification t vid vs =
     latestIssued (filter (\<lambda>v. ver_voterId v = vid \<and> verifiedAt v = None
                              \<and> ver_consumedAt v = None \<and> expiresAt v \<ge> t) vs)"

datatype requestResponse =
    RegNoRequired
  | RegNoNotFound
  | NotEligible
  | AlreadyVoted
  | RateLimited nat
  | EmailMissing
  | PhoneMissing
  | DeliveryFailed "string option" "string option"
  | OtpSent string "string list" "string list"
  | RequestFailed

fun requestStatus :: "requestResponse \<Rightarrow> nat" where
  "requestStatus RegNoRequired = 400"
| "requestStatus RegNoNotFound = 404"
| "requestStatus NotEligible = 400"
| "requestStatus AlreadyVoted = 400"
| "requestStatus (RateLimited n) = 429"
| "requestStatus EmailMissing = 400"
| "requestStatus PhoneMissing = 400"
| "requestStatus (DeliveryFailed a b) = 500"
| "requestStatus (OtpSent m sent failed) = 200"
| "requestStatus RequestFailed = 500"

fun requestError :: "requestResponse \<Rightarrow> string" where
  "requestError RegNoRequired = ''Registration number is required''"
| "requestError RegNoNotFound = ''Registration number not found''"
| "requestError NotEligible = ''Voter is not eligible''"
| "requestError AlreadyVoted = ''You have already voted. Ballot already used.''"
| "requestError (RateLimited n) = ''Please wait before requesting another OTP''"
| "requestError EmailMissing = ''Voter email not found''"
| "requestError PhoneMissing = ''Voter phone number not found''"
| "requestError (DeliveryFailed a b) = ''Failed to send OTP via both email and SMS''"
| "requestError (OtpSent m sent failed) = []"
| "requestError RequestFailed = ''Failed to request OTP''"

text \<open>The two arrays the handler declares before it starts the deliveries.\<close>

record deliveryLog =
  sentMethods :: "string list"
  failedMethods :: "string list"

text \<open>
  The \<open>.then\<close> and \<open>.catch\<close> callbacks attached to \<open>sendOTPEmail\<close> and \<open>sendOTPSMS\<close>.
  Whether a delivery succeeds is given by the environment (the senders are the
  notification gateway, outside the sources). A failed delivery also writes an audit
  entry, whose own failure is caught and logged to the console.
\<close>

definition emailSettled :: "env \<Rightarrow> verification \<Rightarrow> deliveryLog \<times> store \<Rightarrow> deliveryLog \<times> store" where
  "emailSettled e ver ls =
     (case ls of (l, s) \<Rightarrow>
        if emailDelivers e then (l\<lparr>sentMethods := sentMethods l @ [''email'']\<rparr>, s)
        else (l\<lparr>failedMethods := failedMethods l @ [''email'']\<rparr>,
              snd (logAudit e (AuditEvent ''OTP_EMAIL_FAILED'' ''verification'' (ver_id ver)) s)))"

definition smsSettled :: "env \<Rightarrow> verification \<Rightarrow> deliveryLog \<times> store \<Rightarrow> deliveryLog \<times> store" where
  "smsSettled e ver ls =
     (case ls of (l, s) \<Rightarrow>
        if smsDelivers e then (l\<lparr>sentMethods := sentMethods l @ [''SMS'']\<rparr>, s)
        else (l\<lparr>failedMethods := failedMethods l @ [''SMS'']\<rparr>,
              snd (logAudit e (AuditEvent ''OTP_SMS_FAILED'' ''verification'' (ver_id ver)) s)))"

definition sentMessage :: "string list \<Rightarrow> string" where
  "sentMessage sent =
     (if length sent = 2 then ''OTP sent successfully to your email and phone''
      else if ''email'' \<in> set sent then ''OTP sent successfully to your email''
      else if ''SMS'' \<in> set sent then ''OTP sent successfully to your phone''
      else ''OTP sent successfully'')"

text \<open>
  The delivery part of \<open>requestOTP\<close>, from the declaration of the two arrays to the
  response. Neither sender is awaited, and a callback of a promise never runs inside the
  synchronous code that attached it: the test \<open>sentMethods.length === 0\<close> follows the two
  calls with no \<open>await\<close> in between, so it reads the arrays as they were declared
  (\<open>l0\<close>). The callbacks run afterwards in the background; their effect on the store
  (the audit entries of failed deliveries) is in the returned store. The branch after the
  test is written with both callbacks run before the audit entry, as they would be if the
  test were passed once the deliveries have settled.
\<close>

definition requestOTP_deliver :: "env \<Rightarrow> store \<Rightarrow> verification \<Rightarrow> requestResponse \<times> store" where
  "requestOTP_deliver e s ver =
     (let l0 = \<lparr>sentMethods = [], failedMethods = []\<rparr>;
          settled = smsSettled e ver (emailSettled e ver (l0, s))
      in if length (sentMethods l0) = 0
         then (DeliveryFailed
                 (if ''email'' \<in> set (failedMethods l0) then Some ''Email service failed'' else None)
                 (if ''SMS'' \<in> set (failedMethods l0) then Some ''SMS service failed'' else None),
               snd settled)
         else
           (case logAudit e (AuditEvent ''OTP_REQUESTED'' ''verification'' (ver_id ver)) (snd settled) of
              (ok, s') \<Rightarrow>
                if ok
                then (OtpSent (sentMessage (sentMethods (fst settled)))
                        (sentMethods (fst settled)) (failedMethods (fst settled)), s')
                else (RequestFailed, s')))"

text \<open>\<open>requestOTP\<close> from the eligibility test on (lines 36 to 210), for the voter that
  the lookup has found.\<close>

definition requestOTP_voter :: "env \<Rightarrow> store \<Rightarrow> eligibleVoter \<Rightarrow> requestResponse \<times> store" where
  "requestOTP_voter e s voter =
     (if voter_status voter \<noteq> ''ELIGIBLE'' then (NotEligible, s)
      else if fails e BallotFindFirst then (RequestFailed, s)
      else if consumedBallotOf (voter_id voter) (ballots s) \<noteq> None then (AlreadyVoted, s)
      else if fails e VerificationFindFirst then (RequestFailed, s)
      else if recentVerification (clock e) (voter_id voter) (verifications s) \<noteq> None
      then (RateLimited 120, s)
      else if email voter = [] then (EmailMissing, s)
      else if phone voter = [] then (PhoneMissing, s)
      else if fails e VerificationCreate then (RequestFailed, s)
      else
        let ver = \<lparr>ver_id = freshId (map ver_id (verifications s)),
                   ver_voterId = voter_id voter,
                   ver_method = ''both'',
                   otpHash = bcryptHash e (randomOtp e),
                   ver_issuedAt = clock e,
                   expiresAt = clock e + 5 * 60 * 1000,
                   verifiedAt = None,
                   ver_consumedAt = None,
                   ver_ballotToken = None\<rparr>
        in requestOTP_deliver e (s\<lparr>verifications := verifications s @ [ver]\<rparr>) ver)"

text \<open>\<open>requestOTP\<close>. The registration number is a string, the empty string standing for
  every falsy value. A Prisma call that throws is caught by the handler's \<open>catch\<close>. The
  voter is looked up under \<open>reg_no.toUpperCase()\<close>.\<close>

definition requestOTP :: "env \<Rightarrow> store \<Rightarrow> string \<Rightarrow> requestResponse \<times> store" where
  "requestOTP e s reg_no =
     (if reg_no = [] then (RegNoRequired, s)
      else if fails e EligibleVoterFindUnique then (RequestFailed, s)
      else case findVoter (voters s) (toUpperCase e reg_no) of
        None \<Rightarrow> (RegNoNotFound, s)
      | Some voter \<Rightarrow> requestOTP_voter e s voter)"

datatype confirmResponse =
    FieldsRequired
  | RegNotFound
  | NoValidOtp
  | InvalidOtp
  | AlreadyVotedConfirm
  | Verified string
  | ConfirmFailed

fun confirmStatus :: "confirmResponse \<Rightarrow> nat" where
  "confirmStatus FieldsRequired = 400"
| "confirmStatus RegNotFound = 404"
| "confirmStatus NoValidOtp = 400"
| "confirmStatus InvalidOtp = 401"
| "confirmStatus AlreadyVotedConfirm = 400"
| "confirmStatus (Verified t) = 200"
| "confirmStatus ConfirmFailed = 500"

fun confirmError :: "confirmResponse \<Rightarrow> string" where
  "confirmError FieldsRequired = ''Registration number and OTP are required''"
| "confirmError RegNotFound = ''Registration number not found''"
| "confirmError NoValidOtp = ''No valid OTP found''"
| "confirmError InvalidOtp = ''Invalid OTP''"
| "confirmError AlreadyVotedConfirm = ''You have already voted. Ballot already used.''"
| "confirmError (Verified t) = []"
| "confirmError ConfirmFailed = ''Failed to verify OTP''"

definition markVerified :: "ident \<Rightarrow> instant \<Rightarrow> verification list \<Rightarrow> verification list" where
  "markVerified k t vs = map (\<lambda>v. if ver_id v = k then v\<lparr>verifiedAt := Some t\<rparr> else v) vs"

definition linkBallotToken :: "ident \<Rightarrow> string \<Rightarrow> verification list \<Rightarrow> verification list" where
  "linkBallotToken k tok vs =
     map (\<lambda>v. if ver_id v = k then v\<lparr>ver_ballotToken := Some tok\<rparr> else v) vs"

text \<open>
  The issuing part of \<open>confirmOTP\<close> (from \<open>verification.update\<close> to the response): four
  awaited calls in a row and no transaction, so a throw keeps the writes made before it.
  \<open>ballot.create\<close> also throws when the token is already in the table (\<open>findUnique\<close> by
  token needs the column to be unique). The last call is \<open>await logAudit\<close>, inside the
  \<open>try\<close>.
\<close>

definition confirmOTP_issue :: "env \<Rightarrow> store \<Rightarrow> eligibleVoter \<Rightarrow> verification \<Rightarrow> confirmResponse \<times> store" where
  "confirmOTP_issue e s voter ver =
     (if fails e VerificationUpdateVerifiedAt then (ConfirmFailed, s)
      else
        let s1 = s\<lparr>verifications := markVerified (ver_id ver) (clock e) (verifications s)\<rparr>;
            ballotToken = randomToken e
        in if fails e BallotCreate \<or> ballotToken \<in> set (map token (ballots s1))
           then (ConfirmFailed, s1)
           else
             let b = \<lparr>ballot_id = freshId (map ballot_id (ballots s1)),
                      ballot_voterId = voter_id voter,
                      token = ballotToken,
                      status = ACTIVE,
                      issuedAt = clock e,
                      consumedAt = None\<rparr>;
                 s2 = s1\<lparr>ballots := ballots s1 @ [b]\<rparr>
             in if fails e VerificationUpdateBallotToken then (ConfirmFailed, s2)
                else
                  let s3 = s2\<lparr>verifications :=
                                 linkBallotToken (ver_id ver) ballotToken (verifications s2)\<rparr>
                  in (case logAudit e (AuditEvent ''OTP_VERIFIED_BALLOT_ISSUED'' ''ballot'' (ballot_id b)) s3 of
                        (ok, s4) \<Rightarrow> if ok then (Verified ballotToken, s4) else (ConfirmFailed, s4)))"

text \<open>\<open>confirmOTP\<close> from the challenge query on (lines 244 to 341), for the voter that
  the lookup has found.\<close>

definition confirmOTP_voter :: "env \<Rightarrow> store \<Rightarrow> eligibleVoter \<Rightarrow> string \<Rightarrow> confirmResponse \<times> store" where
  "confirmOTP_voter e s voter otp =
     (if fails e VerificationFindFirst then (ConfirmFailed, s)
      else case findValidVerification (clock e) (voter_id voter) (verifications s) of
        None \<Rightarrow> (NoValidOtp, s)
      | Some ver \<Rightarrow>
          if \<not> bcryptCompare e otp (otpHash ver)
          then (case logAudit e (AuditEvent ''OTP_VERIFICATION_FAILED'' ''verification'' (ver_id ver)) s of
                  (ok, s') \<Rightarrow> if ok then (InvalidOtp, s') else (ConfirmFailed, s'))
          else if fails e BallotFindFirst then (ConfirmFailed, s)
          else if consumedBallotOf (voter_id voter) (ballots s) \<noteq> None
          then (AlreadyVotedConfirm, s)
          else confirmOTP_issue e s voter ver)"

text \<open>\<open>confirmOTP\<close>. Both body fields are strings, the empty string standing for every
  falsy value. The voter is looked up under \<open>reg_no.toUpperCase()\<close>.\<close>

definition confirmOTP :: "env \<Rightarrow> store \<Rightarrow> string \<Rightarrow> string \<Rightarrow> confirmResponse \<times> store" where
  "confirmOTP e s reg_no otp =
     (if reg_no = [] \<or> otp = [] then (FieldsRequired, s)
      else if fails e EligibleVoterFindUnique then (ConfirmFailed, s)
      else case findVoter (voters s) (toUpperCase e reg_no) of
        None \<Rightarrow> (RegNotFound, s)
      | Some voter \<Rightarrow> confirmOTP_voter e s voter otp)"

section \<open>Concrete scenarios\<close>

text \<open>
  The store and the environments at which the theorems below are instantiated: one
  eligible voter \<open>REG123\<close> with both contact channels, one position whose voting window
  is \<open>1000 .. 5000\<close>, and two approved candidates and a pending one for it.
\<close>

text \<open>
  The upper-casing used in the concrete scenarios: it maps the 26 ASCII lower-case
  letters and keeps every other character, which is what \<open>toUpperCase\<close> does on a
  string of ASCII characters. The scenarios apply it to such strings only.
\<close>

definition letterPairs :: "(char \<times> char) list" where
  "letterPairs = zip ''abcdefghijklmnopqrstuvwxyz'' ''ABCDEFGHIJKLMNOPQRSTUVWXYZ''"

definition upperChar :: "char \<Rightarrow> char" where
  "upperChar c = (case map_of letterPairs c of Some u \<Rightarrow> u | None \<Rightarrow> c)"

definition asciiUpperCase :: "string \<Rightarrow> string" where
  "asciiUpperCase r = map upperChar r"

text \<open>
  Two ASCII strings that differ in letter case only: the same length, and position by
  position the same character up to the case of a letter.
\<close>

definition caseVariant :: "char \<Rightarrow> char \<Rightarrow> bool" where
  "caseVariant a b = (a = b \<or> (a, b) \<in> set letterPairs \<or> (b, a) \<in> set letterPairs)"

definition sameIgnoringCase :: "string \<Rightarrow> string \<Rightarrow> bool" where
  "sameIgnoringCase r r' = list_all2 caseVariant r r'"

definition noFault :: "dbCall \<Rightarrow> bool" where
  "noFault c = False"

definition failsAt :: "dbCall \<Rightarrow> dbCall \<Rightarrow> bool" where
  "failsAt c c' = (c' = c)"

text \<open>A stand-in for bcrypt with the one property the handlers rely on: \<open>compare\<close>
  accepts a plaintext for a hash exactly when the hash was made from it.\<close>

definition toyHash :: "string \<Rightarrow> string" where
  "toyHash p = CHR ''#'' # p"

definition toyCompare :: "string \<Rightarrow> string \<Rightarrow> bool" where
  "toyCompare p h = (h = toyHash p)"

definition scenarioEnv :: "instant \<Rightarrow> string \<Rightarrow> env" where
  "scenarioEnv t tok =
     \<lparr>clock = t, tzOffset = 0, toUpperCase = asciiUpperCase, fails = noFault, auditRejects = False,
      emailDelivers = True, smsDelivers = True,
      randomOtp = ''123456'', randomToken = tok,
      bcryptHash = toyHash, bcryptCompare = toyCompare\<rparr>"

definition voter1 :: eligibleVoter where
  "voter1 = \<lparr>voter_id = 1, regNo = ''REG123'', voter_status = ''ELIGIBLE'',
             email = ''v1@example.org'', phone = ''0700000001''\<rparr>"

definition position1 :: position where
  "position1 = \<lparr>position_id = 1, name = ''President'', votingOpens = 1000, votingCloses = 5000\<rparr>"

definition candidate1 :: candidate where
  "candidate1 = \<lparr>candidate_id = 1, cand_positionId = 1, cand_status = ''APPROVED''\<rparr>"

definition candidate2 :: candidate where
  "candidate2 = \<lparr>candidate_id = 2, cand_positionId = 1, cand_status = ''APPROVED''\<rparr>"

definition candidate3 :: candidate where
  "candidate3 = \<lparr>candidate_id = 3, cand_positionId = 1, cand_status = ''PENDING''\<rparr>"

definition ballotA :: ballot where
  "ballotA = \<lparr>ballot_id = 1, ballot_voterId = 1, token = ''tokenA'', status = ACTIVE,
              issuedAt = 1500, consumedAt = None\<rparr>"

definition challenge1 :: verification where
  "challenge1 = \<lparr>ver_id = 1, ver_voterId = 1, ver_method = ''both'', otpHash = toyHash ''123456'',
                 ver_issuedAt = 2000, expiresAt = 302000, verifiedAt = None,
                 ver_consumedAt = None, ver_ballotToken = None\<rparr>"

definition store0 :: store where
  "store0 = \<lparr>voters = [voter1], verifications = [], ballots = [], votes = [],
             positions = [position1], candidates = [candidate1, candidate2, candidate3],
             auditLog = []\<rparr>"

text \<open>The voter holds one ACTIVE ballot.\<close>

definition storeA :: store where
  "storeA = store0\<lparr>ballots := [ballotA]\<rparr>"

text \<open>The voter holds one ACTIVE ballot and one pending challenge.\<close>

definition storeA1 :: store where
  "storeA1 = store0\<lparr>ballots := [ballotA], verifications := [challenge1]\<rparr>"

text \<open>The voter holds one pending challenge and no ballot: the store after the voter's
  first request at instant \<open>2000\<close>.\<close>

definition store1 :: store where
  "store1 = store0\<lparr>verifications := [challenge1]\<rparr>"


definition oneVote :: "voteEntry list" where
  "oneVote = [\<lparr>positionId = 1, candidateId = 1\<rparr>]"

definition otherVote :: "voteEntry list" where
  "otherVote = [\<lparr>positionId = 1, candidateId = 2\<rparr>]"

definition repeatedVotes :: "voteEntry list" where
  "repeatedVotes = [\<lparr>positionId = 1, candidateId = 1\<rparr>, \<lparr>positionId = 1, candidateId = 2\<rparr>]"

text \<open>
  One voter, six requests in a row: request a code, confirm it (ballot \<open>tokenA\<close>),
  request a second code, confirm it (ballot \<open>tokenB\<close>), cast a vote with the first
  ballot, cast a vote with the second.
\<close>

definition run1 :: store where
  "run1 = snd (requestOTP (scenarioEnv 2000 []) store0 ''reg123'')"

definition run2 :: store where
  "run2 = snd (confirmOTP (scenarioEnv 2100 ''tokenA'') run1 ''reg123'' ''123456'')"

definition run3 :: store where
  "run3 = snd (requestOTP (scenarioEnv 2200 []) run2 ''reg123'')"

definition run4 :: store where
  "run4 = snd (confirmOTP (scenarioEnv 2300 ''tokenB'') run3 ''reg123'' ''123456'')"

definition run5 :: store where
  "run5 = snd (castVote (scenarioEnv 2400 []) run4 ''tokenA'' oneVote)"

definition run6 :: store where
  "run6 = snd (castVote (scenarioEnv 2500 []) run5 ''tokenB'' otherVote)"

section \<open>Properties of \<open>castVote\<close>\<close>

lemma open_positions_distinct_ids:
  assumes "distinct (map position_id ps)"
  shows "distinct (map position_id (openPositionsFor now ids ps))"
  using assms unfolding openPositionsFor_def by (rule distinct_map_filter)

lemma open_positions_count_card:
  assumes "distinct (map position_id ps)"
  shows "length (openPositionsFor now ids ps) = card (position_id ` set (openPositionsFor now ids ps))"
proof -
  let ?F = "openPositionsFor now ids ps"
  have "length ?F = length (map position_id ?F)" by simp
  also have "\<dots> = card (set (map position_id ?F))"
    using open_positions_distinct_ids [OF assms] by (simp only: distinct_card)
  finally show ?thesis by simp
qed

lemma open_positions_ids_subset:
  "position_id ` set (openPositionsFor now ids ps) \<subseteq> set ids"
  by (auto simp: openPositionsFor_def)

lemma open_positions_count_le:
  assumes "distinct (map position_id ps)"
  shows "length (openPositionsFor now ids ps) \<le> card (set ids)"
  using open_positions_count_card [OF assms, of now ids]
    card_mono [OF _ open_positions_ids_subset, of ids now ps]
  by simp

lemma repeated_ids_card_less:
  assumes "\<not> distinct ids"
  shows "card (set ids) < length ids"
proof -
  have "card (set ids) \<le> length ids" by (rule card_length)
  moreover have "card (set ids) \<noteq> length ids"
    using assms card_distinct by blast
  ultimately show ?thesis by simp
qed

lemma open_positions_count_repeated:
  assumes "\<not> distinct ids" and "distinct (map position_id ps)"
  shows "length (openPositionsFor now ids ps) < length ids"
  using open_positions_count_le [OF assms(2), of now ids] repeated_ids_card_less [OF assms(1)]
  by simp

text \<open>A targeted id none of whose rows is open keeps the count below the number of ids.\<close>

lemma open_positions_count_missing:
  assumes d: "distinct (map position_id ps)"
    and k: "k \<in> set ids"
    and closed: "\<forall>p \<in> set ps. position_id p = k \<longrightarrow> \<not> (votingOpens p \<le> now \<and> votingCloses p \<ge> now)"
  shows "length (openPositionsFor now ids ps) < length ids"
proof -
  let ?F = "openPositionsFor now ids ps"
  have "k \<notin> position_id ` set ?F"
    using closed by (auto simp: openPositionsFor_def)
  then have "position_id ` set ?F \<subseteq> set ids - {k}"
    using open_positions_ids_subset [of now ids ps] by blast
  then have "card (position_id ` set ?F) \<le> card (set ids - {k})"
    by (intro card_mono) simp_all
  also have "\<dots> < card (set ids)"
    using k by (intro card_Diff1_less) simp_all
  also have "\<dots> \<le> length ids" by (rule card_length)
  finally show ?thesis
    using open_positions_count_card [OF d, of now ids] by simp
qed

lemma castVote_rejects_on_count_mismatch:
  assumes "length (openPositionsFor now (map positionId vs) (positions s)) \<noteq> length vs"
  shows "castStatus (fst (castVoteAt now e s tok vs)) \<noteq> 200 \<and> snd (castVoteAt now e s tok vs) = s"
  using assms by (simp add: castVoteAt_def split: option.splits)

lemma castVote_commit_response:
  "fst (castVote_commit e s b vs) = CastFailed \<or> fst (castVote_commit e s b vs) = VoteCast (length vs)"
  by (simp add: castVote_commit_def Let_def)

text \<open>
  Claim C7. A cast-vote submission that contains two selections for the same position is
  answered with a status other than 200 and leaves the store as it was: no Vote row is
  written and the ballot keeps its status. This holds in both votes controllers, for every
  token, every environment (failing calls included) and every store whose positions have
  distinct ids (the primary key).
\<close>

theorem castVote_repeated_position_rejected:
  assumes "\<not> distinct (map positionId vs)"
    and "distinct (map position_id (positions s))"
  shows "castStatus (fst (castVote e s tok vs)) \<noteq> 200 \<and> snd (castVote e s tok vs) = s
       \<and> castStatus (fst (castVote_localTime e s tok vs)) \<noteq> 200 \<and> snd (castVote_localTime e s tok vs) = s"
proof -
  have "length (openPositionsFor now (map positionId vs) (positions s)) \<noteq> length vs" for now
    using open_positions_count_repeated [OF assms, of now] by simp
  then show ?thesis
    unfolding castVote_def castVote_localTime_def
    using castVote_rejects_on_count_mismatch by blast
qed

theorem castVote_repeated_position_rejected_witness:
  "\<not> distinct (map positionId repeatedVotes)
   \<and> distinct (map position_id (positions storeA))
   \<and> castStatus (fst (castVote (scenarioEnv 3000 []) storeA ''tokenA'' repeatedVotes)) \<noteq> 200
   \<and> snd (castVote (scenarioEnv 3000 []) storeA ''tokenA'' repeatedVotes) = storeA"
proof -
  have h1: "\<not> distinct (map positionId repeatedVotes)"
    by (simp add: repeatedVotes_def)
  have h2: "distinct (map position_id (positions storeA))"
    by (simp add: storeA_def store0_def)
  from castVote_repeated_position_rejected [OF h1 h2, of "scenarioEnv 3000 []" "''tokenA''"] h1 h2
  show ?thesis by simp
qed

text \<open>
  Claim C2, as stated, fails at the closing instant: the window query is
  \<open>votingOpens <= now\<close> and \<open>votingCloses >= now\<close>, so a vote cast at
  \<open>now = votingCloses\<close> is accepted with status 200.
\<close>

theorem castVote_accepts_at_closing_instant:
  "position1 \<in> set (positions storeA)
   \<and> position_id position1 \<in> set (map positionId oneVote)
   \<and> clock (scenarioEnv 5000 []) \<ge> votingCloses position1
   \<and> fst (castVote (scenarioEnv 5000 []) storeA ''tokenA'' oneVote) = VoteCast 1
   \<and> castStatus (VoteCast 1) = 200"
  by code_simp

text \<open>When every targeted id has an open row and no id is repeated, the count matches.\<close>

lemma open_positions_count_all_open:
  assumes d: "distinct (map position_id ps)"
    and ids: "distinct ids"
    and op: "\<forall>k \<in> set ids. \<exists>p \<in> set ps. position_id p = k \<and> votingOpens p \<le> now \<and> now \<le> votingCloses p"
  shows "length (openPositionsFor now ids ps) = length ids"
proof -
  let ?F = "openPositionsFor now ids ps"
  have "set ids \<subseteq> position_id ` set ?F"
    using op by (force simp: openPositionsFor_def)
  with open_positions_ids_subset [of now ids ps]
  have "position_id ` set ?F = set ids" by blast
  then have "length ?F = card (set ids)"
    using open_positions_count_card [OF d, of now ids] by simp
  also have "\<dots> = length ids"
    using ids by (rule distinct_card)
  finally show ?thesis .
qed

text \<open>
  Claim C2, amended. In \<open>castVote\<close> with \<open>const now = new Date()\<close> the open-for-voting
  test is the closed interval \<open>votingOpens \<le> now \<le> votingCloses\<close>. For a submission
  that reaches the test (token and votes present, ballot found and not CONSUMED, the
  queries answering): if a targeted position is outside its interval, in particular if
  \<open>now > votingCloses\<close>, the submission is rejected with status 400, ``Some positions
  are not open for voting'', and nothing is written; if every targeted position is
  inside its interval, the closing instant included, and no position is targeted twice,
  the submission is not rejected for its voting window. The handler reads nothing about
  an earlier fetch of the ballot page.
\<close>

theorem castVote_window_closed_interval:
  assumes "tok \<noteq> []" and "vs \<noteq> []"
    and "\<not> fails e BallotFindUnique"
    and "\<not> fails e PositionFindManyOpen"
    and "\<not> fails e PositionFindManyAll"
    and "findBallotByToken (ballots s) tok = Some b"
    and "status b = ACTIVE"
    and "distinct (map position_id (positions s))"
  shows "((\<exists>v \<in> set vs. \<exists>p \<in> set (positions s). position_id p = positionId v
             \<and> (clock e < votingOpens p \<or> votingCloses p < clock e))
          \<longrightarrow> castVote e s tok vs =
                (PositionsNotOpen
                   (map name (closedPositionsFor (clock e) (map positionId vs) (positions s))), s)
              \<and> castStatus (fst (castVote e s tok vs)) = 400)
       \<and> (distinct (map positionId vs)
            \<and> (\<forall>v \<in> set vs. \<exists>p \<in> set (positions s). position_id p = positionId v
                  \<and> votingOpens p \<le> clock e \<and> clock e \<le> votingCloses p)
          \<longrightarrow> (\<forall>ns. fst (castVote e s tok vs) \<noteq> PositionsNotOpen ns))"
proof (intro conjI impI)
  assume "\<exists>v \<in> set vs. \<exists>p \<in> set (positions s). position_id p = positionId v
            \<and> (clock e < votingOpens p \<or> votingCloses p < clock e)"
  then obtain v p where v: "v \<in> set vs" and p: "p \<in> set (positions s)"
    and vp: "position_id p = positionId v"
    and out: "clock e < votingOpens p \<or> votingCloses p < clock e"
    by blast
  have inj: "inj_on position_id (set (positions s))"
    using assms(8) by (simp add: distinct_map)
  have same: "q = p" if q: "q \<in> set (positions s)" and qv: "position_id q = positionId v" for q
  proof -
    have "position_id q = position_id p" using qv vp by simp
    from inj this q p show ?thesis by (rule inj_onD)
  qed
  have closed: "\<forall>q \<in> set (positions s). position_id q = positionId v \<longrightarrow>
                  \<not> (votingOpens q \<le> clock e \<and> votingCloses q \<ge> clock e)"
    using same out by auto
  have k: "positionId v \<in> set (map positionId vs)"
    using v by simp
  have "length (openPositionsFor (clock e) (map positionId vs) (positions s)) < length (map positionId vs)"
    using assms(8) k closed by (rule open_positions_count_missing)
  then have ne: "length (openPositionsFor (clock e) (map positionId vs) (positions s)) \<noteq> length vs"
    by simp
  have r: "castVote e s tok vs =
        (PositionsNotOpen (map name (closedPositionsFor (clock e) (map positionId vs) (positions s))), s)"
    using assms(1-7) ne by (simp add: castVote_def castVoteAt_def)
  show "castVote e s tok vs =
        (PositionsNotOpen (map name (closedPositionsFor (clock e) (map positionId vs) (positions s))), s)"
    by (rule r)
  show "castStatus (fst (castVote e s tok vs)) = 400"
    by (simp add: r)
next
  assume a: "distinct (map positionId vs)
            \<and> (\<forall>v \<in> set vs. \<exists>p \<in> set (positions s). position_id p = positionId v
                  \<and> votingOpens p \<le> clock e \<and> clock e \<le> votingCloses p)"
  then have op: "\<forall>k \<in> set (map positionId vs). \<exists>p \<in> set (positions s).
                   position_id p = k \<and> votingOpens p \<le> clock e \<and> clock e \<le> votingCloses p"
    by auto
  have "length (openPositionsFor (clock e) (map positionId vs) (positions s)) = length (map positionId vs)"
    using assms(8) a op by (intro open_positions_count_all_open) simp_all
  then have n: "length (openPositionsFor (clock e) (map positionId vs) (positions s)) = length vs"
    by simp
  have c: "fst (castVote_commit e s b vs) \<noteq> PositionsNotOpen ns" for ns
    using castVote_commit_response [of e s b vs] by auto
  show "\<forall>ns. fst (castVote e s tok vs) \<noteq> PositionsNotOpen ns"
    using assms(1-7) n c by (simp add: castVote_def castVoteAt_def)
qed

theorem castVote_window_closed_interval_witness:
  "castVote (scenarioEnv 5001 []) storeA ''tokenA'' oneVote = (PositionsNotOpen [''President''], storeA)
   \<and> castVote (scenarioEnv 999 []) storeA ''tokenA'' oneVote = (PositionsNotOpen [''President''], storeA)
   \<and> fst (castVote (scenarioEnv 5000 []) storeA ''tokenA'' oneVote) \<noteq> PositionsNotOpen []
   \<and> fst (castVote (scenarioEnv 1000 []) storeA ''tokenA'' oneVote) \<noteq> PositionsNotOpen []"
proof -
  have h: "''tokenA'' \<noteq> []" "oneVote \<noteq> []"
    "\<not> fails (scenarioEnv t []) BallotFindUnique"
    "\<not> fails (scenarioEnv t []) PositionFindManyOpen"
    "\<not> fails (scenarioEnv t []) PositionFindManyAll"
    "findBallotByToken (ballots storeA) ''tokenA'' = Some ballotA"
    "status ballotA = ACTIVE"
    "distinct (map position_id (positions storeA))" for t
    by (simp_all add: scenarioEnv_def noFault_def findBallotByToken_def storeA_def store0_def
          ballotA_def oneVote_def)
  have c: "map name (closedPositionsFor (clock (scenarioEnv t [])) (map positionId oneVote) (positions storeA))
            = (if t < 1000 \<or> 5000 < t then [''President''] else [])" for t
    by (simp add: closedPositionsFor_def scenarioEnv_def oneVote_def storeA_def store0_def position1_def)
  have out: "\<exists>v \<in> set oneVote. \<exists>p \<in> set (positions storeA). position_id p = positionId v
               \<and> (clock (scenarioEnv t []) < votingOpens p \<or> votingCloses p < clock (scenarioEnv t []))"
    if "t < 1000 \<or> 5000 < t" for t
    using that by (simp add: scenarioEnv_def oneVote_def storeA_def store0_def position1_def)
  have inside: "distinct (map positionId oneVote)
            \<and> (\<forall>v \<in> set oneVote. \<exists>p \<in> set (positions storeA). position_id p = positionId v
                  \<and> votingOpens p \<le> clock (scenarioEnv t []) \<and> clock (scenarioEnv t []) \<le> votingCloses p)"
    if "1000 \<le> t" and "t \<le> 5000" for t
    using that by (simp add: scenarioEnv_def oneVote_def storeA_def store0_def position1_def)
  note w = castVote_window_closed_interval [OF h]
  have "castVote (scenarioEnv 5001 []) storeA ''tokenA'' oneVote = (PositionsNotOpen [''President''], storeA)"
    using w [of 5001] out [of 5001] c [of 5001] by simp
  moreover have "castVote (scenarioEnv 999 []) storeA ''tokenA'' oneVote = (PositionsNotOpen [''President''], storeA)"
    using w [of 999] out [of 999] c [of 999] by simp
  moreover have "fst (castVote (scenarioEnv 5000 []) storeA ''tokenA'' oneVote) \<noteq> PositionsNotOpen []"
    using w [of 5000] inside [of 5000] by simp
  moreover have "fst (castVote (scenarioEnv 1000 []) storeA ''tokenA'' oneVote) \<noteq> PositionsNotOpen []"
    using w [of 1000] inside [of 1000] by simp
  ultimately show ?thesis by simp
qed

text \<open>The answer of the repeated-position test cannot be reached: when the window count
  matches the number of selections, no position id is repeated.\<close>

lemma castVote_repeated_position_answer_unreachable:
  assumes "distinct (map position_id (positions s))"
  shows "fst (castVoteAt now e s tok vs) \<noteq> SamePositionTwice"
proof
  assume r: "fst (castVoteAt now e s tok vs) = SamePositionTwice"
  have c: "fst (castVote_commit e s b vs) \<noteq> SamePositionTwice" for b
    using castVote_commit_response [of e s b vs] by auto
  from r c have n: "length (openPositionsFor now (map positionId vs) (positions s)) = length vs"
    and m: "length (remdups (map positionId vs)) \<noteq> length (map positionId vs)"
    by (auto simp: castVoteAt_def split: if_splits option.splits)
  from m have "\<not> distinct (map positionId vs)"
    using distinct_remdups_id by fastforce
  from open_positions_count_repeated [OF this assms, of now] n show False by simp
qed

text \<open>
  Claim C6 at a failing input. The position is open, both candidates are approved, and
  the submission names the position twice. The handler has a test for this with its own
  answer (``Cannot vote multiple times for the same position''), placed after the window
  and candidate checks; the window check before it compares the number of open rows found
  with the number of selections, a repeated id is found once, and so the submission is
  answered with the voting-window error and an empty list of closed positions.
\<close>

theorem castVote_repeated_position_window_error:
  "\<not> distinct (map positionId repeatedVotes)
   \<and> votingOpens position1 \<le> clock (scenarioEnv 3000 [])
   \<and> clock (scenarioEnv 3000 []) < votingCloses position1
   \<and> fst (castVote (scenarioEnv 3000 []) storeA ''tokenA'' repeatedVotes) = PositionsNotOpen []
   \<and> castError (PositionsNotOpen []) = ''Some positions are not open for voting''
   \<and> castError SamePositionTwice = ''Cannot vote multiple times for the same position''"
  by code_simp

text \<open>The vote rows of a submission are written all together or not at all, and the
  ballot table changes only after they are written.\<close>

lemma castVote_commit_all_or_none:
  "(votes (snd (castVote_commit e s b vs)) = votes s
      \<and> ballots (snd (castVote_commit e s b vs)) = ballots s)
   \<or> (votes (snd (castVote_commit e s b vs)) = votes s @ map (voteRow (ballot_id b)) vs
      \<and> (ballots (snd (castVote_commit e s b vs)) = ballots s
         \<or> ballots (snd (castVote_commit e s b vs)) = consumeBallot (ballot_id b) (clock e) (ballots s)))"
  by (simp add: castVote_commit_def logAudit_def Let_def)

lemma castVote_votes_all_or_none:
  "(votes (snd (castVoteAt now e s tok vs)) = votes s
      \<and> ballots (snd (castVoteAt now e s tok vs)) = ballots s)
   \<or> (\<exists>b. findBallotByToken (ballots s) tok = Some b
        \<and> votes (snd (castVoteAt now e s tok vs)) = votes s @ map (voteRow (ballot_id b)) vs
        \<and> (ballots (snd (castVoteAt now e s tok vs)) = ballots s
           \<or> ballots (snd (castVoteAt now e s tok vs)) = consumeBallot (ballot_id b) (clock e) (ballots s)))"
proof (cases "findBallotByToken (ballots s) tok")
  case None
  then show ?thesis by (simp add: castVoteAt_def)
next
  case (Some b)
  show ?thesis
    using castVote_commit_all_or_none [of e s b vs] Some
    by (auto simp: castVoteAt_def)
qed

text \<open>
  Claim C1 at a failing run. \<open>prisma.$transaction\<close> holds the \<open>vote.create\<close> calls only
  and \<open>ballot.update\<close> is a separate call after it. When that call throws, the caller
  is answered 500 ``Failed to cast vote'' while the Vote row stays recorded and the ballot
  is still ACTIVE. (The rest of the claim is not contradicted: by
  \<open>castVote_votes_all_or_none\<close> no partial set of votes is ever written and the
  ballot only changes once the votes are written.)
\<close>

theorem castVote_ballot_update_outside_transaction:
  "fst (castVote ((scenarioEnv 3000 [])\<lparr>fails := failsAt BallotUpdate\<rparr>) storeA ''tokenA'' oneVote) = CastFailed
   \<and> castStatus CastFailed = 500
   \<and> votes (snd (castVote ((scenarioEnv 3000 [])\<lparr>fails := failsAt BallotUpdate\<rparr>) storeA ''tokenA'' oneVote))
       = [\<lparr>vote_ballotId = 1, vote_positionId = 1, vote_candidateId = 1\<rparr>]
   \<and> ballots (snd (castVote ((scenarioEnv 3000 [])\<lparr>fails := failsAt BallotUpdate\<rparr>) storeA ''tokenA'' oneVote))
       = [ballotA]
   \<and> ballot_id ballotA = 1 \<and> status ballotA = ACTIVE"
  by code_simp

section \<open>Properties of \<open>requestOTP\<close> and \<open>confirmOTP\<close>\<close>

lemma letterPairs_distinct: "distinct (map fst letterPairs)"
  unfolding letterPairs_def by simp

lemma letterPairs_upper_not_lower: "set (map snd letterPairs) \<inter> set (map fst letterPairs) = {}"
  unfolding letterPairs_def by simp

lemma upperChar_lower:
  assumes "(a, b) \<in> set letterPairs"
  shows "upperChar a = b"
  using map_of_is_SomeI [OF letterPairs_distinct assms] by (simp add: upperChar_def)

lemma upperChar_upper:
  assumes "(a, b) \<in> set letterPairs"
  shows "upperChar b = b"
proof -
  have "b \<in> set (map snd letterPairs)"
    using assms by force
  then have "b \<notin> set (map fst letterPairs)"
    using letterPairs_upper_not_lower by blast
  then have "map_of letterPairs b = None"
    by (simp add: map_of_eq_None_iff)
  then show ?thesis by (simp add: upperChar_def)
qed

lemma upperChar_caseVariant:
  assumes "caseVariant a b"
  shows "upperChar a = upperChar b"
  using assms upperChar_lower upperChar_upper unfolding caseVariant_def by metis

lemma asciiUpperCase_sameIgnoringCase:
  assumes "sameIgnoringCase r r'"
  shows "asciiUpperCase r = asciiUpperCase r'"
  using assms unfolding sameIgnoringCase_def asciiUpperCase_def
  by (induction rule: list_all2_induct) (simp_all add: upperChar_caseVariant)

lemma findVoter_unique:
  assumes "v \<in> set vs" and "distinct (map regNo vs)"
  shows "findVoter vs (regNo v) = Some v"
  using assms unfolding findVoter_def
  by (induction vs) auto

text \<open>Whatever \<open>requestOTP\<close> stores for a voter is a challenge owned by that voter, and
  whatever \<open>confirmOTP\<close> issues for a voter is a ballot owned by that voter.\<close>

lemma requestOTP_voter_owner:
  "verifications (snd (requestOTP_voter e s v)) = verifications s
   \<or> (\<exists>x. verifications (snd (requestOTP_voter e s v)) = verifications s @ [x]
          \<and> ver_voterId x = voter_id v)"
  by (simp add: requestOTP_voter_def requestOTP_deliver_def emailSettled_def smsSettled_def
        logAudit_def Let_def)

lemma confirmOTP_issue_owner:
  "ballots (snd (confirmOTP_issue e s v ver)) = ballots s
   \<or> (\<exists>b. ballots (snd (confirmOTP_issue e s v ver)) = ballots s @ [b]
          \<and> ballot_voterId b = voter_id v)"
  by (simp add: confirmOTP_issue_def logAudit_def Let_def)

lemma confirmOTP_voter_owner:
  "ballots (snd (confirmOTP_voter e s v otp)) = ballots s
   \<or> (\<exists>b. ballots (snd (confirmOTP_voter e s v otp)) = ballots s @ [b]
          \<and> ballot_voterId b = voter_id v)"
  using confirmOTP_issue_owner [of e s v]
  by (simp add: confirmOTP_voter_def logAudit_def split: option.splits)

text \<open>
  Claim C10. Registration numbers are matched without regard to letter case: both
  \<open>requestOTP\<close> and \<open>confirmOTP\<close> look the voter up under \<open>reg_no.toUpperCase()\<close>.
  Let a voter be stored under an uppercase registration number (one that
  \<open>toUpperCase\<close> leaves as it is; registration numbers are unique in the roster), and
  let \<open>r\<close> be any casing of that number (a non-empty string with the same upper-casing).
  Then, the lookup not failing, each endpoint goes on with exactly this voter: neither
  answers ``Registration number not found'', \<open>requestOTP\<close> runs its eligibility, vote,
  rate-limit and delivery steps on this voter and \<open>confirmOTP\<close> its challenge and
  ballot steps, and every challenge or ballot the request adds is owned by this voter.
\<close>

theorem regNo_lookup_ignores_case:
  assumes "v \<in> set (voters s)"
    and "distinct (map regNo (voters s))"
    and "toUpperCase e (regNo v) = regNo v"
    and "toUpperCase e r = toUpperCase e (regNo v)"
    and "r \<noteq> []" and "otp \<noteq> []"
    and "\<not> fails e EligibleVoterFindUnique"
  shows "requestOTP e s r = requestOTP_voter e s v
       \<and> confirmOTP e s r otp = confirmOTP_voter e s v otp
       \<and> fst (requestOTP e s r) \<noteq> RegNoNotFound
       \<and> fst (confirmOTP e s r otp) \<noteq> RegNotFound
       \<and> (verifications (snd (requestOTP e s r)) = verifications s
           \<or> (\<exists>x. verifications (snd (requestOTP e s r)) = verifications s @ [x]
                  \<and> ver_voterId x = voter_id v))
       \<and> (ballots (snd (confirmOTP e s r otp)) = ballots s
           \<or> (\<exists>b. ballots (snd (confirmOTP e s r otp)) = ballots s @ [b]
                  \<and> ballot_voterId b = voter_id v))"
proof -
  have look: "findVoter (voters s) (toUpperCase e r) = Some v"
    using findVoter_unique [OF assms(1,2)] assms(3,4) by simp
  have req: "requestOTP e s r = requestOTP_voter e s v"
    using look assms(5,7) by (simp add: requestOTP_def)
  have conf: "confirmOTP e s r otp = confirmOTP_voter e s v otp"
    using look assms(5,6,7) by (simp add: confirmOTP_def)
  have nf1: "fst (requestOTP_voter e s v) \<noteq> RegNoNotFound"
    by (simp add: requestOTP_voter_def requestOTP_deliver_def Let_def split: prod.splits)
  have i: "fst (confirmOTP_issue e s v ver) \<noteq> RegNotFound" for ver
    by (simp add: confirmOTP_issue_def Let_def split: prod.splits)
  have nf2: "fst (confirmOTP_voter e s v otp) \<noteq> RegNotFound"
    using i by (simp add: confirmOTP_voter_def split: option.splits prod.splits)
  show ?thesis
    using requestOTP_voter_owner [of e s v] confirmOTP_voter_owner [of e s v otp] nf1 nf2
    by (simp only: req conf) simp
qed

theorem regNo_lookup_ignores_case_witness:
  "voter1 \<in> set (voters store1)
   \<and> sameIgnoringCase ''rEg123'' (regNo voter1)
   \<and> requestOTP (scenarioEnv 2000 []) store1 ''rEg123'' = requestOTP_voter (scenarioEnv 2000 []) store1 voter1
   \<and> confirmOTP (scenarioEnv 2000 ''tokenA'') store1 ''rEg123'' ''123456''
       = confirmOTP_voter (scenarioEnv 2000 ''tokenA'') store1 voter1 ''123456''
   \<and> fst (requestOTP (scenarioEnv 2000 []) store1 ''rEg123'') \<noteq> RegNoNotFound
   \<and> fst (confirmOTP (scenarioEnv 2000 ''tokenA'') store1 ''rEg123'' ''123456'') \<noteq> RegNotFound"
proof -
  have h4: "sameIgnoringCase ''rEg123'' (regNo voter1)"
    by (simp add: voter1_def sameIgnoringCase_def caseVariant_def letterPairs_def)
  have hs: "voter1 \<in> set (voters store1)"
    "distinct (map regNo (voters store1))"
    "''rEg123'' \<noteq> []" "''123456'' \<noteq> []"
    by (simp_all add: store1_def store0_def)
  have he: "toUpperCase (scenarioEnv t tok) (regNo voter1) = regNo voter1"
    "toUpperCase (scenarioEnv t tok) ''rEg123'' = toUpperCase (scenarioEnv t tok) (regNo voter1)"
    "\<not> fails (scenarioEnv t tok) EligibleVoterFindUnique" for t tok
    using asciiUpperCase_sameIgnoringCase [OF h4]
    by (simp_all add: scenarioEnv_def noFault_def voter1_def
          asciiUpperCase_def upperChar_def letterPairs_def)
  note a = he [of 2000 "[]"]
  note b = he [of 2000 "''tokenA''"]
  note r1 = regNo_lookup_ignores_case [OF hs(1,2) a(1,2) hs(3,4) a(3)]
  note r2 = regNo_lookup_ignores_case [OF hs(1,2) b(1,2) hs(3,4) b(3)]
  show ?thesis
    using r1 r2 hs(1) h4 by blast
qed


lemma latestIssued_mem: "latestIssued xs = Some v \<Longrightarrow> v \<in> set xs"
  by (induction xs arbitrary: v) (auto split: option.splits if_splits)

text \<open>The challenge that \<open>confirmOTP\<close> locates is the voter's, is neither verified nor
  consumed, and has not expired.\<close>

lemma findValidVerification_Some:
  assumes "findValidVerification t vid vs = Some v"
  shows "v \<in> set vs \<and> ver_voterId v = vid \<and> verifiedAt v = None
       \<and> ver_consumedAt v = None \<and> t \<le> expiresAt v"
  using latestIssued_mem [OF assms [unfolded findValidVerification_def]] by simp





text \<open>
  Claim C8. The lifetime-vote checks look at CONSUMED ballots only. A voter who already
  holds an ACTIVE ballot, has no CONSUMED one, and presents the right code for a pending,
  unexpired challenge is answered 200 with a new token, and a second ACTIVE ballot of the
  same voter is added to the table (the Prisma calls and the audit entry succeeding, the
  drawn token not being in use).
\<close>

theorem confirmOTP_second_active_ballot:
  assumes "reg_no \<noteq> []" and "otp \<noteq> []"
    and "\<forall>c. \<not> fails e c"
    and "\<not> auditRejects e"
    and "findVoter (voters s) (toUpperCase e reg_no) = Some voter"
    and "held \<in> set (ballots s)"
    and "ballot_voterId held = voter_id voter"
    and "status held = ACTIVE"
    and "\<forall>b \<in> set (ballots s). ballot_voterId b = voter_id voter \<longrightarrow> status b \<noteq> CONSUMED"
    and "findValidVerification (clock e) (voter_id voter) (verifications s) = Some ver"
    and "bcryptCompare e otp (otpHash ver)"
    and "randomToken e \<notin> token ` set (ballots s)"
  shows "fst (confirmOTP e s reg_no otp) = Verified (randomToken e)
       \<and> confirmStatus (fst (confirmOTP e s reg_no otp)) = 200
       \<and> ballots (snd (confirmOTP e s reg_no otp))
           = ballots s @ [\<lparr>ballot_id = freshId (map ballot_id (ballots s)),
                           ballot_voterId = voter_id voter,
                           token = randomToken e,
                           status = ACTIVE,
                           issuedAt = clock e,
                           consumedAt = None\<rparr>]
       \<and> 2 \<le> length (filter (\<lambda>b. ballot_voterId b = voter_id voter \<and> status b = ACTIVE)
                        (ballots (snd (confirmOTP e s reg_no otp))))"
proof -
  let ?new = "\<lparr>ballot_id = freshId (map ballot_id (ballots s)),
               ballot_voterId = voter_id voter,
               token = randomToken e,
               status = ACTIVE,
               issuedAt = clock e,
               consumedAt = None\<rparr>"
  have none: "consumedBallotOf (voter_id voter) (ballots s) = None"
    using assms(9) by (auto simp: consumedBallotOf_def find_None_iff)
  have issue: "confirmOTP_issue e s voter ver
      = (Verified (randomToken e),
         s\<lparr>verifications := linkBallotToken (ver_id ver) (randomToken e)
                               (markVerified (ver_id ver) (clock e) (verifications s)),
           ballots := ballots s @ [?new],
           auditLog := auditLog s @ [AuditEvent ''OTP_VERIFIED_BALLOT_ISSUED'' ''ballot''
                                       (freshId (map ballot_id (ballots s)))]\<rparr>)"
    using assms(3,4,12) by (simp add: confirmOTP_issue_def logAudit_def Let_def)
  have conf: "confirmOTP e s reg_no otp = confirmOTP_issue e s voter ver"
    using assms(1-5,10,11) none by (simp add: confirmOTP_def confirmOTP_voter_def)
  have bs: "ballots (snd (confirmOTP e s reg_no otp)) = ballots s @ [?new]"
    by (simp add: conf issue)
  have "filter (\<lambda>b. ballot_voterId b = voter_id voter \<and> status b = ACTIVE) (ballots s) \<noteq> []"
    using assms(6-8) by (auto simp: filter_empty_conv)
  then have "1 \<le> length (filter (\<lambda>b. ballot_voterId b = voter_id voter \<and> status b = ACTIVE) (ballots s))"
    by (simp add: Suc_le_eq)
  then have two: "2 \<le> length (filter (\<lambda>b. ballot_voterId b = voter_id voter \<and> status b = ACTIVE)
                        (ballots (snd (confirmOTP e s reg_no otp))))"
    by (simp add: bs)
  show ?thesis
    using bs two by (simp add: conf issue)
qed

theorem confirmOTP_second_active_ballot_witness:
  "ballotA \<in> set (ballots storeA1) \<and> status ballotA = ACTIVE
   \<and> fst (confirmOTP (scenarioEnv 3000 ''tokenB'') storeA1 ''REG123'' ''123456'') = Verified ''tokenB''
   \<and> map (\<lambda>b. (ballot_voterId b, token b, status b))
       (ballots (snd (confirmOTP (scenarioEnv 3000 ''tokenB'') storeA1 ''REG123'' ''123456'')))
       = [(1, ''tokenA'', ACTIVE), (1, ''tokenB'', ACTIVE)]"
proof -
  have h: "''REG123'' \<noteq> []" "''123456'' \<noteq> []"
    "\<forall>c. \<not> fails (scenarioEnv 3000 ''tokenB'') c"
    "\<not> auditRejects (scenarioEnv 3000 ''tokenB'')"
    "findVoter (voters storeA1) (toUpperCase (scenarioEnv 3000 ''tokenB'') ''REG123'') = Some voter1"
    "ballotA \<in> set (ballots storeA1)"
    "ballot_voterId ballotA = voter_id voter1"
    "status ballotA = ACTIVE"
    "\<forall>b \<in> set (ballots storeA1). ballot_voterId b = voter_id voter1 \<longrightarrow> status b \<noteq> CONSUMED"
    "findValidVerification (clock (scenarioEnv 3000 ''tokenB'')) (voter_id voter1) (verifications storeA1)
       = Some challenge1"
    "bcryptCompare (scenarioEnv 3000 ''tokenB'') ''123456'' (otpHash challenge1)"
    "randomToken (scenarioEnv 3000 ''tokenB'') \<notin> token ` set (ballots storeA1)"
    by (simp_all add: scenarioEnv_def noFault_def storeA1_def store0_def findVoter_def
          asciiUpperCase_def upperChar_def letterPairs_def voter1_def challenge1_def ballotA_def
          findValidVerification_def toyCompare_def)
  have v: "voter_id voter1 = 1" "token ballotA = ''tokenA''" "ballots storeA1 = [ballotA]"
    "ballot_voterId ballotA = 1" "randomToken (scenarioEnv 3000 ''tokenB'') = ''tokenB''"
    by (simp_all add: voter1_def ballotA_def storeA1_def store0_def scenarioEnv_def)
  from confirmOTP_second_active_ballot [OF h] h(6,8) v show ?thesis
    by simp
qed

text \<open>
  Claim C3 at a failing run. One voter requests and confirms a code twice before voting
  and so holds two ACTIVE ballots; \<open>castVote\<close> looks only at the status of the ballot
  whose token is presented, so both ballots are redeemed and the voter ends with two
  CONSUMED ballots and two votes for the same position.
\<close>

theorem one_voter_two_consumed_ballots:
  "fst (confirmOTP (scenarioEnv 2100 ''tokenA'') run1 ''reg123'' ''123456'') = Verified ''tokenA''
   \<and> fst (confirmOTP (scenarioEnv 2300 ''tokenB'') run3 ''reg123'' ''123456'') = Verified ''tokenB''
   \<and> map ballot_voterId (ballots run4) = [1, 1]
   \<and> map status (ballots run4) = [ACTIVE, ACTIVE]
   \<and> fst (castVote (scenarioEnv 2400 []) run4 ''tokenA'' oneVote) = VoteCast 1
   \<and> fst (castVote (scenarioEnv 2500 []) run5 ''tokenB'' otherVote) = VoteCast 1
   \<and> map ballot_voterId (ballots run6) = [1, 1]
   \<and> map token (ballots run6) = [''tokenA'', ''tokenB'']
   \<and> map status (ballots run6) = [CONSUMED, CONSUMED]
   \<and> votes run6 = [\<lparr>vote_ballotId = 1, vote_positionId = 1, vote_candidateId = 1\<rparr>,
                   \<lparr>vote_ballotId = 2, vote_positionId = 1, vote_candidateId = 2\<rparr>]"
  by code_simp

lemma requestOTP_deliver_status: "requestStatus (fst (requestOTP_deliver e s ver)) = 500"
  by (simp add: requestOTP_deliver_def)

lemma requestOTP_never_reports_success: "requestStatus (fst (requestOTP e s reg_no)) \<noteq> 200"
  by (simp add: requestOTP_def requestOTP_voter_def requestOTP_deliver_status Let_def
        split: option.splits)

text \<open>
  Claim C4 at a failing input. The voter is eligible, has both contact channels, is not
  rate-limited and has not voted; both deliveries succeed. The handler still answers 500
  ``Failed to send OTP via both email and SMS'', having stored the challenge: it tests
  \<open>sentMethods.length === 0\<close> before any delivery callback can have run.
  \<open>requestOTP_never_reports_success\<close> above is the general fact.
\<close>

theorem requestOTP_fails_when_both_delivered:
  "emailDelivers (scenarioEnv 2000 []) \<and> smsDelivers (scenarioEnv 2000 [])
   \<and> fst (requestOTP (scenarioEnv 2000 []) store0 ''REG123'') = DeliveryFailed None None
   \<and> requestStatus (DeliveryFailed None None) = 500
   \<and> verifications (snd (requestOTP (scenarioEnv 2000 []) store0 ''REG123'')) = [challenge1]"
  by code_simp

lemma castVote_response_ignores_audit:
  "fst (castVoteAt now (e\<lparr>auditRejects := a\<rparr>) s tok vs) = fst (castVoteAt now e s tok vs)"
  by (simp add: castVoteAt_def castVote_commit_def Let_def split: option.splits)

text \<open>
  Claim C5 at a failing input. \<open>confirmOTP\<close> awaits \<open>logAudit\<close> inside its \<open>try\<close>:
  when the audit sink rejects, a confirmation that is otherwise answered 200 with the
  token is answered 500 (the ballot having been created), and a wrong code that is
  otherwise answered 401 is answered 500. \<open>castVote\<close> calls \<open>logAudit\<close> without
  awaiting it and with a \<open>.catch\<close>, and its response does not depend on the audit sink
  (\<open>castVote_response_ignores_audit\<close> above).
\<close>

theorem confirmOTP_fails_when_audit_rejects:
  "fst (confirmOTP (scenarioEnv 3000 ''tokenA'') store1 ''REG123'' ''123456'') = Verified ''tokenA''
   \<and> fst (confirmOTP ((scenarioEnv 3000 ''tokenA'')\<lparr>auditRejects := True\<rparr>) store1 ''REG123'' ''123456'')
       = ConfirmFailed
   \<and> confirmStatus ConfirmFailed = 500
   \<and> map token
       (ballots (snd (confirmOTP ((scenarioEnv 3000 ''tokenA'')\<lparr>auditRejects := True\<rparr>) store1 ''REG123'' ''123456'')))
       = [''tokenA'']
   \<and> fst (confirmOTP (scenarioEnv 3000 ''tokenA'') store1 ''REG123'' ''000000'') = InvalidOtp
   \<and> fst (confirmOTP ((scenarioEnv 3000 ''tokenA'')\<lparr>auditRejects := True\<rparr>) store1 ''REG123'' ''000000'')
       = ConfirmFailed"
  by code_simp

end
